theory Spec2Isabelle
  imports Main
begin

section \<open>Utility functions of the installer (modoboa_installer/utils.py)\<close>

text \<open>
  Strings are lists of characters; a character stands for a code point below 256.
  Python integers are unbounded, so they are \<open>int\<close>; lengths, bit widths and shift
  counts are \<open>nat\<close>. An exception is a value of the type \<open>error\<close>:
  \<^item> \<open>ValueError_literal\<close> is the \<open>ValueError\<close> that the builtin \<open>int\<close> raises on a string
    that is not an integer literal (the specification calls it FormatError);
  \<^item> \<open>NotImplementedError\<close> is raised for a version with too many components
    (UnsupportedVersionFormat);
  \<^item> \<open>ValueError_bits num bits max_num\<close> is the \<open>ValueError\<close> raised by the range check,
    with the three arguments of its message (OutOfRangeError);
  \<^item> \<open>IndexError\<close> is raised by \<open>random.choice\<close> on an empty sequence and \<open>KeyError key\<close> by
    \<open>del\<close> on a dictionary without the key.
\<close>

datatype error =
    ValueError_literal
  | NotImplementedError
  | ValueError_bits int nat nat
  | IndexError
  | KeyError string

subsection \<open>The builtins used by \<open>convert_version_to_int\<close>\<close>

text \<open>
  \<open>version.split(".")\<close>: the pieces between the separators, in order. There is always at
  least one piece; an empty string gives one empty piece.
\<close>

fun split :: "char \<Rightarrow> string \<Rightarrow> string list" where
  "split sep [] = [[]]"
| "split sep (c # cs) =
     (let pieces = split sep cs
      in if c = sep then [] # pieces else (c # hd pieces) # tl pieces)"

text \<open>
  \<open>int(number_string)\<close> in base 10, as Python 3 reads a string: white space on both
  sides is skipped, one sign may come first, then decimal digits, where single underscores
  may stand between two digits; anything else raises \<open>ValueError\<close> (here \<open>None\<close>).
  The white-space characters below 256 are the code points 9 to 13, 32, 133 and 160; the
  only decimal digits below 256 are \<open>0\<close> to \<open>9\<close>. The interpreter's optional limit on the
  number of digits is not part of the model.
\<close>

definition is_space :: "char \<Rightarrow> bool" where
  "is_space c = (c \<in> set [CHR 0x09, CHR 0x0A, CHR 0x0B, CHR 0x0C, CHR 0x0D, CHR 0x20,
                            CHR 0x85, CHR 0xA0])"

definition is_digit :: "char \<Rightarrow> bool" where
  "is_digit c = (c \<in> set ''0123456789'')"

definition digit_value :: "char \<Rightarrow> int" where
  "digit_value c = int (of_char c) - 48"

text \<open>
  The scan over digits and underscores: \<open>prev\<close> is the character read before, \<open>acc\<close> the
  value of the digits read so far. It stops at the first character that is neither, and
  fails on two underscores in a row and on an underscore at the end of the digits.
\<close>

fun scan_digits :: "char \<Rightarrow> int \<Rightarrow> string \<Rightarrow> (int \<times> string) option" where
  "scan_digits prev acc [] = (if prev = CHR ''_'' then None else Some (acc, []))"
| "scan_digits prev acc (c # cs) =
     (if c = CHR ''_'' then (if prev = CHR ''_'' then None else scan_digits c acc cs)
      else if is_digit c then scan_digits c (10 * acc + digit_value c) cs
      else if prev = CHR ''_'' then None
      else Some (acc, c # cs))"

definition py_int :: "string \<Rightarrow> int option" where
  "py_int s =
     (let s1 = dropWhile is_space s;
          (sign, s2) = (case s1 of
                          [] \<Rightarrow> (1, s1)
                        | c # r \<Rightarrow> if c = CHR ''+'' then (1, r)
                                  else if c = CHR ''-'' then (- 1, r)
                                  else (1, s1))
      in case s2 of
           [] \<Rightarrow> None
         | c # _ \<Rightarrow>
             if \<not> is_digit c then None
             else (case scan_digits (CHR 0x00) 0 s2 of
                     None \<Rightarrow> None
                   | Some (n, rest) \<Rightarrow>
                       if dropWhile is_space rest = [] then Some (sign * n) else None))"

subsection \<open>\<open>convert_version_to_int\<close>\<close>

definition number_bits :: "nat list" where
  "number_bits = [8, 8, 16]"

text \<open>
  The loop \<open>for num, bits in reversed(list(zip(numbers, number_bits)))\<close> with its two
  variables \<open>number\<close> and \<open>total_bits\<close>. \<open>1 << max_num\<close> and \<open>num << total_bits\<close> are
  \<open>push_bit\<close>, which on \<open>int\<close> multiplies by the power of two as Python's shift does, also for
  a negative \<open>num\<close>.
\<close>

fun pack :: "(int \<times> nat) list \<Rightarrow> int \<Rightarrow> nat \<Rightarrow> error + int" where
  "pack [] number total_bits = Inr number"
| "pack ((num, bits) # rest) number total_bits =
     (let max_num = (bits + 1) - 1
      in if num \<ge> push_bit max_num 1
         then Inl (ValueError_bits num bits max_num)
         else pack rest (number + push_bit total_bits num) (total_bits + bits))"

definition convert_version_to_int :: "string \<Rightarrow> error + int" where
  "convert_version_to_int version =
     (case those (map py_int (split (CHR ''.'') version)) of
        None \<Rightarrow> Inl ValueError_literal
      | Some numbers \<Rightarrow>
          if length numbers > length number_bits then Inl NotImplementedError
          else
            let numbers = numbers @ replicate (length number_bits - length numbers) 0
            in pack (rev (zip numbers number_bits)) 0 0)"

subsection \<open>\<open>make_password\<close>\<close>

text \<open>\<open>string.ascii_letters\<close> and \<open>string.digits\<close> of the standard library.\<close>

definition ascii_letters :: string where
  "ascii_letters = ''abcdefghijklmnopqrstuvwxyzABCDEFGHIJKLMNOPQRSTUVWXYZ''"

definition digits :: string where
  "digits = ''0123456789''"

text \<open>
  \<open>random.SystemRandom().choice(seq)\<close> returns \<open>seq[i]\<close> for an index \<open>i\<close> below
  \<open>len(seq)\<close> that the system's random source decides, and raises \<open>IndexError\<close> on an empty
  sequence. The random source is an argument of the model: \<open>r\<close> is the number it delivers
  for this call, reduced below \<open>len(seq)\<close>, so that every index is possible and no other.
\<close>

definition choice :: "nat \<Rightarrow> 'a list \<Rightarrow> error + 'a" where
  "choice r seq = (if seq = [] then Inl IndexError else Inr (seq ! (r mod length seq)))"

text \<open>
  \<open>"".join(...)\<close> over the generator: the characters are produced in order, and the first
  exception ends the call.
\<close>

fun join :: "(error + char) list \<Rightarrow> error + string" where
  "join [] = Inr []"
| "join (x # xs) =
     (case x of
        Inl e \<Rightarrow> Inl e
      | Inr c \<Rightarrow> (case join xs of Inl e \<Rightarrow> Inl e | Inr s \<Rightarrow> Inr (c # s)))"

text \<open>
  \<open>length_arg\<close> is \<open>None\<close> when the caller leaves the argument out, which selects the default
  16. \<open>range(length)\<close> has \<open>length\<close> elements, none when \<open>length\<close> is negative; \<open>rnd i\<close> is the
  number the random source delivers in iteration \<open>i\<close>.
\<close>

definition make_password :: "(nat \<Rightarrow> nat) \<Rightarrow> int option \<Rightarrow> error + string" where
  "make_password rnd length_arg =
     (let length = (case length_arg of None \<Rightarrow> 16 | Some n \<Rightarrow> n)
      in join (map (\<lambda>i. choice (rnd i) (ascii_letters @ digits)) [0..<nat length]))"

text \<open>
  The ASCII letters and the decimal digits, by character code (\<open>A\<close> to \<open>Z\<close> are 65 to 90,
  \<open>a\<close> to \<open>z\<close> are 97 to 122, \<open>0\<close> to \<open>9\<close> are 48 to 57).
\<close>

definition is_ascii_letter :: "char \<Rightarrow> bool" where
  "is_ascii_letter c =
     ((65 \<le> (of_char c :: nat) \<and> (of_char c :: nat) \<le> 90) \<or>
      (97 \<le> (of_char c :: nat) \<and> (of_char c :: nat) \<le> 122))"

definition is_decimal_digit :: "char \<Rightarrow> bool" where
  "is_decimal_digit c = (48 \<le> (of_char c :: nat) \<and> (of_char c :: nat) \<le> 57)"

subsection \<open>\<open>settings\<close>\<close>

text \<open>
  The global \<open>ENV\<close> is a dictionary with strings as keys, here a map; \<open>kwargs\<close> is the
  dictionary of the keyword arguments in the order of its items, whose keys are distinct.
\<close>

type_synonym 'v env = "string \<rightharpoonup> 'v"

text \<open>The loop \<open>for key, value in kwargs.items(): ENV[key] = value\<close>.\<close>

fun set_items :: "(string \<times> 'v) list \<Rightarrow> 'v env \<Rightarrow> 'v env" where
  "set_items [] ENV = ENV"
| "set_items ((key, val) # kwargs) ENV = set_items kwargs (ENV(key \<mapsto> val))"

text \<open>
  The loop \<open>for key in kwargs.keys(): del ENV[key]\<close>; \<open>del\<close> raises \<open>KeyError\<close> when the key
  is not in the dictionary, and the loop ends there, with the keys before it deleted.
\<close>

fun del_items :: "string list \<Rightarrow> 'v env \<Rightarrow> error option \<times> 'v env" where
  "del_items [] ENV = (None, ENV)"
| "del_items (key # keys) ENV =
     (case ENV key of
        None \<Rightarrow> (Some (KeyError key), ENV)
      | Some _ \<Rightarrow> del_items keys (ENV(key := None)))"

text \<open>
  \<open>with settings(**kwargs): body\<close>. The generator runs up to \<open>yield\<close>, the body of the
  \<open>with\<close> statement runs, and on its normal end the generator resumes after \<open>yield\<close>.
  When the body raises, the exception is thrown into the generator at \<open>yield\<close>, where
  nothing catches it: the second loop does not run and the exception leaves the \<open>with\<close>
  statement. The body is a function on \<open>ENV\<close> that returns the exception it raised, if
  any, and the new \<open>ENV\<close>.
\<close>

definition settings ::
  "(string \<times> 'v) list \<Rightarrow> ('v env \<Rightarrow> error option \<times> 'v env) \<Rightarrow> 'v env \<Rightarrow> error option \<times> 'v env" where
  "settings kwargs body ENV =
     (case body (set_items kwargs ENV) of
        (Some e, ENV') \<Rightarrow> (Some e, ENV')
      | (None, ENV') \<Rightarrow> del_items (map fst kwargs) ENV')"


section \<open>Properties of \<open>convert_version_to_int\<close>\<close>

subsection \<open>The builtins and the loop\<close>

lemma split_not_Nil: "split sep s \<noteq> []"
  by (induction s) (simp_all add: Let_def)

lemma split_append_sep: "split sep (a @ sep # b) = split sep a @ split sep b"
proof (induction a)
  case Nil
  show ?case by simp
next
  case (Cons c a)
  have ne: "split sep a \<noteq> []" by (rule split_not_Nil)
  show ?case
  proof (cases "c = sep")
    case True
    with Cons show ?thesis by simp
  next
    case False
    with Cons ne show ?thesis by (simp add: Let_def)
  qed
qed

lemma those_eq_Some_iff: "those xs = Some ys \<longleftrightarrow> xs = map Some ys"
  by (induction xs arbitrary: ys) (auto split: option.splits)

lemma those_snoc_Some: "those (xs @ [Some y]) = map_option (\<lambda>ys. ys @ [y]) (those xs)"
  by (induction xs) (auto simp: option.map_comp comp_def split: option.splits)

lemma pack_Inl_iff:
  "(\<exists>n b m. pack ps number total_bits = Inl (ValueError_bits n b m)) \<longleftrightarrow>
   (\<exists>(num, bits) \<in> set ps. 2 ^ bits \<le> num)"
  by (induction ps number total_bits rule: pack.induct) (auto simp: push_bit_eq_mult)

lemma pack_Inl_is_bits:
  "pack ps number total_bits = Inl e \<Longrightarrow> \<exists>n b. e = ValueError_bits n b b \<and> (n, b) \<in> set ps \<and> 2 ^ b \<le> n"
  by (induction ps number total_bits rule: pack.induct) (auto simp: push_bit_eq_mult split: if_splits)

lemma pack_nonneg:
  "pack ps number total_bits = Inr r \<Longrightarrow> 0 \<le> number \<Longrightarrow> \<forall>(num, bits) \<in> set ps. 0 \<le> num \<Longrightarrow> 0 \<le> r"
  by (induction ps number total_bits rule: pack.induct) (auto simp: push_bit_eq_mult split: if_splits)

lemma pack_three:
  "pack (rev (zip [c1, c2, c3] number_bits)) 0 0 =
     (if 65536 \<le> c3 then Inl (ValueError_bits c3 16 16)
      else if 256 \<le> c2 then Inl (ValueError_bits c2 8 8)
      else if 256 \<le> c1 then Inl (ValueError_bits c1 8 8)
      else Inr (c1 * 2 ^ 24 + c2 * 2 ^ 16 + c3))"
  by (simp add: number_bits_def push_bit_eq_mult)

lemma convert_version_to_int_numbers:
  assumes "map py_int (split (CHR ''.'') v) = map Some nums"
  shows "convert_version_to_int v =
           (if length nums > length number_bits then Inl NotImplementedError
            else pack (rev (zip (nums @ replicate (length number_bits - length nums) 0) number_bits)) 0 0)"
proof -
  have "those (map py_int (split (CHR ''.'') v)) = Some nums"
    using assms by (simp add: those_eq_Some_iff)
  then show ?thesis
    by (simp add: convert_version_to_int_def Let_def)
qed

lemma convert_version_to_int_three:
  assumes "map py_int (split (CHR ''.'') v) = [Some c1, Some c2, Some c3]"
  shows "convert_version_to_int v =
     (if 65536 \<le> c3 then Inl (ValueError_bits c3 16 16)
      else if 256 \<le> c2 then Inl (ValueError_bits c2 8 8)
      else if 256 \<le> c1 then Inl (ValueError_bits c1 8 8)
      else Inr (c1 * 2 ^ 24 + c2 * 2 ^ 16 + c3))"
proof -
  have "map py_int (split (CHR ''.'') v) = map Some [c1, c2, c3]"
    using assms by simp
  from convert_version_to_int_numbers [OF this] have
    "convert_version_to_int v = pack (rev (zip [c1, c2, c3] number_bits)) 0 0"
    by (simp add: number_bits_def)
  then show ?thesis by (simp only: pack_three)
qed

lemmas py_int_eval = py_int_def is_space_def is_digit_def digit_value_def

lemma those_map_None_iff: "those (map f xs) = None \<longleftrightarrow> (\<exists>x \<in> set xs. f x = None)"
  by (induction xs) (auto split: option.splits)

lemma padded_zip_exceeds:
  assumes "length nums \<le> length bs"
  shows "(\<exists>(n, b) \<in> set (zip (nums @ replicate (length bs - length nums) 0) bs). (2::int) ^ b \<le> n) \<longleftrightarrow>
         (\<exists>i < length nums. 2 ^ (bs ! i) \<le> nums ! i)"
proof -
  let ?p = "nums @ replicate (length bs - length nums) 0"
  have len: "length ?p = length bs" using assms by simp
  have "(\<exists>(n, b) \<in> set (zip ?p bs). (2::int) ^ b \<le> n) \<longleftrightarrow> (\<exists>i < length bs. 2 ^ (bs ! i) \<le> ?p ! i)"
    using len by (auto simp: set_zip)
  also have "\<dots> \<longleftrightarrow> (\<exists>i < length nums. 2 ^ (bs ! i) \<le> nums ! i)"
  proof
    assume "\<exists>i < length bs. 2 ^ (bs ! i) \<le> ?p ! i"
    then obtain i where i: "i < length bs" "2 ^ (bs ! i) \<le> ?p ! i" by blast
    have "i < length nums"
    proof (rule ccontr)
      assume "\<not> i < length nums"
      with i(1) have "?p ! i = 0" by (simp add: nth_append)
      with i(2) show False by simp
    qed
    with i(2) show "\<exists>i < length nums. 2 ^ (bs ! i) \<le> nums ! i"
      by (auto simp: nth_append)
  next
    assume "\<exists>i < length nums. 2 ^ (bs ! i) \<le> nums ! i"
    then obtain i where "i < length nums" "2 ^ (bs ! i) \<le> nums ! i" by blast
    with assms show "\<exists>i < length bs. 2 ^ (bs ! i) \<le> ?p ! i"
      by (intro exI [of _ i]) (simp add: nth_append)
  qed
  finally show ?thesis .
qed

lemma convert_version_to_int_bits_iff:
  "(\<exists>num bits max_num. convert_version_to_int v = Inl (ValueError_bits num bits max_num)) \<longleftrightarrow>
   (\<exists>nums. map py_int (split (CHR ''.'') v) = map Some nums \<and> length nums \<le> length number_bits \<and>
      (\<exists>i < length nums. nums ! i > 2 ^ (number_bits ! i) - 1))"
  (is "?L \<longleftrightarrow> ?R")
proof (cases "those (map py_int (split (CHR ''.'') v))")
  case None
  then have "convert_version_to_int v = Inl ValueError_literal"
    by (simp add: convert_version_to_int_def)
  moreover have "\<not> ?R" using None by (auto simp: those_eq_Some_iff [symmetric])
  ultimately show ?thesis by simp
next
  case (Some nums)
  then have m: "map py_int (split (CHR ''.'') v) = map Some nums"
    by (simp add: those_eq_Some_iff)
  have uniq: "nums' = nums" if "map py_int (split (CHR ''.'') v) = map Some nums'" for nums'
    using that Some by (simp add: those_eq_Some_iff [symmetric])
  show ?thesis
  proof (cases "length nums \<le> length number_bits")
    case False
    then have "convert_version_to_int v = Inl NotImplementedError"
      using m by (simp add: convert_version_to_int_numbers)
    moreover have "\<not> ?R" using False uniq by blast
    ultimately show ?thesis by simp
  next
    case True
    have "convert_version_to_int v =
            pack (rev (zip (nums @ replicate (length number_bits - length nums) 0) number_bits)) 0 0"
      using m True by (simp add: convert_version_to_int_numbers)
    then have "?L \<longleftrightarrow>
        (\<exists>(n, b) \<in> set (zip (nums @ replicate (length number_bits - length nums) 0) number_bits). 2 ^ b \<le> n)"
      by (simp add: pack_Inl_iff)
    also have "\<dots> \<longleftrightarrow> (\<exists>i < length nums. 2 ^ (number_bits ! i) \<le> nums ! i)"
      using True by (rule padded_zip_exceeds)
    also have "\<dots> \<longleftrightarrow> (\<exists>i < length nums. nums ! i > 2 ^ (number_bits ! i) - 1)"
      by auto
    also have "\<dots> \<longleftrightarrow> ?R"
      using m True uniq by blast
    finally show ?thesis .
  qed
qed

lemma convert_version_to_int_literal_iff:
  "convert_version_to_int v = Inl ValueError_literal \<longleftrightarrow>
   (\<exists>p \<in> set (split (CHR ''.'') v). py_int p = None)"
proof (cases "those (map py_int (split (CHR ''.'') v))")
  case None
  then have "\<exists>p \<in> set (split (CHR ''.'') v). py_int p = None"
    by (simp add: those_map_None_iff)
  with None show ?thesis by (simp add: convert_version_to_int_def)
next
  case (Some nums)
  then have no: "\<not> (\<exists>p \<in> set (split (CHR ''.'') v). py_int p = None)"
    using those_map_None_iff [of py_int "split (CHR ''.'') v"] by simp
  have "convert_version_to_int v \<noteq> Inl ValueError_literal"
    using Some pack_Inl_is_bits [of _ 0 0 ValueError_literal]
    by (auto simp: convert_version_to_int_def Let_def)
  with no show ?thesis by simp
qed

lemma convert_version_to_int_NotImplemented_iff:
  "convert_version_to_int v = Inl NotImplementedError \<longleftrightarrow>
   (\<forall>p \<in> set (split (CHR ''.'') v). py_int p \<noteq> None) \<and> length (split (CHR ''.'') v) > 3"
proof (cases "those (map py_int (split (CHR ''.'') v))")
  case None
  then have "\<exists>p \<in> set (split (CHR ''.'') v). py_int p = None"
    by (simp add: those_map_None_iff)
  with None show ?thesis by (auto simp: convert_version_to_int_def)
next
  case (Some nums)
  then have m: "map py_int (split (CHR ''.'') v) = map Some nums"
    by (simp add: those_eq_Some_iff)
  then have "length (split (CHR ''.'') v) = length nums"
    using length_map by metis
  moreover have "\<forall>p \<in> set (split (CHR ''.'') v). py_int p \<noteq> None"
    using Some those_map_None_iff [of py_int "split (CHR ''.'') v"] by simp
  moreover have "pack ps 0 0 \<noteq> Inl NotImplementedError" for ps
    using pack_Inl_is_bits [of ps 0 0 NotImplementedError] by auto
  ultimately show ?thesis
    using Some by (simp add: convert_version_to_int_def Let_def number_bits_def)
qed

lemma py_int_zero: "py_int ''0'' = Some 0"
  by (simp add: py_int_eval)

lemma convert_version_to_int_append_zero:
  assumes "length (split (CHR ''.'') v) < 3"
  shows "convert_version_to_int (v @ ''.0'') = convert_version_to_int v"
proof -
  let ?ps = "split (CHR ''.'') v"
  have sp: "split (CHR ''.'') (v @ ''.0'') = ?ps @ [''0'']"
    using split_append_sep [of "CHR ''.''" v "''0''"] by simp
  then have th: "those (map py_int (split (CHR ''.'') (v @ ''.0''))) =
                 map_option (\<lambda>ys. ys @ [0]) (those (map py_int ?ps))"
    by (simp add: py_int_zero those_snoc_Some)
  show ?thesis
  proof (cases "those (map py_int ?ps)")
    case None
    with th show ?thesis by (simp add: convert_version_to_int_def)
  next
    case (Some nums)
    then have "map py_int ?ps = map Some nums" by (simp add: those_eq_Some_iff)
    then have "length ?ps = length nums" using length_map by metis
    with assms have len: "length nums < length number_bits" by (simp add: number_bits_def)
    then obtain k where k: "length number_bits - length nums = Suc k"
      by (cases "length number_bits - length nums") simp_all
    then have k': "length number_bits - length (nums @ [0]) = k" by simp
    have pad: "(nums @ [0]) @ replicate (length number_bits - length (nums @ [0])) 0 =
               nums @ replicate (length number_bits - length nums) (0::int)"
      unfolding k k' by simp
    have "convert_version_to_int (v @ ''.0'') =
            pack (rev (zip ((nums @ [0]) @ replicate (length number_bits - length (nums @ [0])) 0) number_bits)) 0 0"
      using Some th len by (simp add: convert_version_to_int_def Let_def del: append_assoc)
    moreover have "convert_version_to_int v =
            pack (rev (zip (nums @ replicate (length number_bits - length nums) 0) number_bits)) 0 0"
      using Some len by (simp add: convert_version_to_int_def Let_def)
    ultimately show ?thesis by (simp only: pad)
  qed
qed

subsection \<open>Packing of three components\<close>

text \<open>
  Claim C1: for every version string whose three dot-separated pieces are read as
  \<open>c1\<close>, \<open>c2\<close> and \<open>c3\<close> with \<open>0 \<le> c1 < 256\<close>, \<open>0 \<le> c2 < 256\<close> and \<open>0 \<le> c3 < 65536\<close>,
  \<open>convert_version_to_int\<close> returns \<open>c1 * 2^24 + c2 * 2^16 + c3\<close>; in particular
  \<open>convert_version_to_int("1.2.3")\<close> is 16908291.
\<close>

theorem convert_version_to_int_packs:
  assumes "map py_int (split (CHR ''.'') v) = [Some c1, Some c2, Some c3]"
    and "0 \<le> c1" and "c1 < 256" and "0 \<le> c2" and "c2 < 256" and "0 \<le> c3" and "c3 < 65536"
  shows "convert_version_to_int v = Inr (c1 * 2 ^ 24 + c2 * 2 ^ 16 + c3) \<and>
         convert_version_to_int ''1.2.3'' = Inr 16908291"
proof -
  have a: "convert_version_to_int v = Inr (c1 * 2 ^ 24 + c2 * 2 ^ 16 + c3)"
    using assms by (simp add: convert_version_to_int_three)
  have "map py_int (split (CHR ''.'') ''1.2.3'') = [Some 1, Some 2, Some 3]"
    by (simp add: py_int_eval)
  then have b: "convert_version_to_int ''1.2.3'' = Inr 16908291"
    by (simp add: convert_version_to_int_three)
  from a b show ?thesis by simp
qed

theorem convert_version_to_int_packs_witness:
  "map py_int (split (CHR ''.'') ''1.2.3'') = [Some 1, Some 2, Some 3] \<and>
   (0::int) \<le> 1 \<and> (1::int) < 256 \<and> (0::int) \<le> 2 \<and> (2::int) < 256 \<and> (0::int) \<le> 3 \<and> (3::int) < 65536 \<and>
   convert_version_to_int ''1.2.3'' = Inr (1 * 2 ^ 24 + 2 * 2 ^ 16 + 3)"
proof -
  have h: "map py_int (split (CHR ''.'') ''1.2.3'') = [Some 1, Some 2, Some 3]"
    by (simp add: py_int_eval)
  from convert_version_to_int_packs [OF h] have "convert_version_to_int ''1.2.3'' = Inr (1 * 2 ^ 24 + 2 * 2 ^ 16 + 3)"
    by simp
  with h show ?thesis by simp
qed

subsection \<open>The range check\<close>

text \<open>
  Claim C2, as stated, says that the range check rejects every value from 9 on for an 8-bit
  component, so that \<open>convert_version_to_int("9.0.0")\<close> raises. It does not:
  the call returns \<open>9 * 2^24\<close>.
\<close>

theorem range_check_accepts_nine: "convert_version_to_int ''9.0.0'' = Inr 150994944"
proof -
  have "map py_int (split (CHR ''.'') ''9.0.0'') = [Some 9, Some 0, Some 0]"
    by (simp add: py_int_eval)
  then show ?thesis by (simp add: convert_version_to_int_three)
qed

text \<open>
  Claim C2, amended: \<open>max_num\<close> is computed as \<open>(bits + 1) - 1\<close>, which is \<open>bits\<close>, and a
  component is rejected when it is at least \<open>1 << max_num\<close>, which is \<open>2^bits\<close>. So for the
  first, 8-bit component (the other two being in range) the call raises the out-of-range
  error, whose message reports \<open>bits\<close> as the maximum, exactly for the values from 256 on,
  and returns the packed number for every value below 256.
\<close>

theorem range_check_limit_is_power_of_two:
  assumes "map py_int (split (CHR ''.'') v) = [Some c1, Some c2, Some c3]"
    and "c2 < 256" and "c3 < 65536"
  shows "convert_version_to_int v =
           (if 1 * 2 ^ ((8 + 1) - 1) \<le> c1 then Inl (ValueError_bits c1 8 ((8 + 1) - 1))
            else Inr (c1 * 2 ^ 24 + c2 * 2 ^ 16 + c3))"
  using assms by (simp add: convert_version_to_int_three)

theorem range_check_limit_is_power_of_two_witness:
  "map py_int (split (CHR ''.'') ''256.0.0'') = [Some 256, Some 0, Some 0] \<and>
   (0::int) < 256 \<and> (0::int) < 65536 \<and>
   convert_version_to_int ''256.0.0'' = Inl (ValueError_bits 256 8 8)"
proof -
  have h: "map py_int (split (CHR ''.'') ''256.0.0'') = [Some 256, Some 0, Some 0]"
    by (simp add: py_int_eval)
  from range_check_limit_is_power_of_two [OF h] have "convert_version_to_int ''256.0.0'' = Inl (ValueError_bits 256 8 8)"
    by simp
  with h show ?thesis by simp
qed

text \<open>
  Claim C3: \<open>convert_version_to_int("256.0.0")\<close> fails with the out-of-range error and
  \<open>convert_version_to_int("255.0.0")\<close> succeeds; in general the out-of-range error is raised
  exactly when some component exceeds \<open>2^bits - 1\<close>, the largest value of its slot. The
  components are the numbers that the pieces of the input are read as, at most as many as
  there are slots.
\<close>

theorem out_of_range_iff_exceeds_slot:
  "((\<exists>num bits max_num. convert_version_to_int v = Inl (ValueError_bits num bits max_num)) \<longleftrightarrow>
    (\<exists>nums. map py_int (split (CHR ''.'') v) = map Some nums \<and> length nums \<le> length number_bits \<and>
       (\<exists>i < length nums. nums ! i > 2 ^ (number_bits ! i) - 1))) \<and>
   convert_version_to_int ''256.0.0'' = Inl (ValueError_bits 256 8 8) \<and>
   convert_version_to_int ''255.0.0'' = Inr 4278190080"
proof -
  have "map py_int (split (CHR ''.'') ''256.0.0'') = [Some 256, Some 0, Some 0]"
    by (simp add: py_int_eval)
  then have b: "convert_version_to_int ''256.0.0'' = Inl (ValueError_bits 256 8 8)"
    by (simp add: convert_version_to_int_three)
  have "map py_int (split (CHR ''.'') ''255.0.0'') = [Some 255, Some 0, Some 0]"
    by (simp add: py_int_eval)
  then have c: "convert_version_to_int ''255.0.0'' = Inr 4278190080"
    by (simp add: convert_version_to_int_three)
  from b c show ?thesis
    by (simp only: convert_version_to_int_bits_iff simp_thms)
qed

theorem out_of_range_iff_exceeds_slot_witness:
  "map py_int (split (CHR ''.'') ''1.300'') = map Some [1, 300] \<and>
   length [1, 300 :: int] \<le> length number_bits \<and>
   [1, 300 :: int] ! 1 > 2 ^ (number_bits ! 1) - 1 \<and>
   (\<exists>num bits max_num. convert_version_to_int ''1.300'' = Inl (ValueError_bits num bits max_num))"
proof -
  have h: "map py_int (split (CHR ''.'') ''1.300'') = map Some [1, 300]"
    by (simp add: py_int_eval)
  have l: "length [1, 300 :: int] \<le> length number_bits"
    by (simp add: number_bits_def)
  have e: "[1, 300 :: int] ! 1 > 2 ^ (number_bits ! 1) - 1"
    by (simp add: number_bits_def)
  then have "\<exists>i < length [1, 300 :: int]. [1, 300 :: int] ! i > 2 ^ (number_bits ! i) - 1"
    by (intro exI [of _ 1]) simp
  with h l have "\<exists>nums. map py_int (split (CHR ''.'') ''1.300'') = map Some nums \<and>
      length nums \<le> length number_bits \<and> (\<exists>i < length nums. nums ! i > 2 ^ (number_bits ! i) - 1)"
    by blast
  with out_of_range_iff_exceeds_slot [of "''1.300''"]
  have "\<exists>num bits max_num. convert_version_to_int ''1.300'' = Inl (ValueError_bits num bits max_num)"
    by blast
  with h l e show ?thesis by blast
qed

subsection \<open>Pieces that are not integer literals\<close>

text \<open>
  Claim C4, as stated, says that the call fails with the format error whenever a piece is
  not a valid non-negative integer. The piece \<open>-1\<close> is not one, and \<open>int\<close> reads it as
  \<open>-1\<close>: \<open>convert_version_to_int("-1.0.0")\<close> returns \<open>-16777216\<close>.
\<close>

theorem negative_piece_is_accepted:
  "py_int ''-1'' = Some (- 1) \<and> convert_version_to_int ''-1.0.0'' = Inr (- 16777216)"
proof -
  have "map py_int (split (CHR ''.'') ''-1.0.0'') = [Some (- 1), Some 0, Some 0]"
    by (simp add: py_int_eval)
  then have "convert_version_to_int ''-1.0.0'' = Inr (- 16777216)"
    by (simp add: convert_version_to_int_three)
  moreover have "py_int ''-1'' = Some (- 1)"
    by (simp add: py_int_eval)
  ultimately show ?thesis by simp
qed

text \<open>
  Claim C4, amended: \<open>convert_version_to_int\<close> fails with the \<open>ValueError\<close> of \<open>int\<close> exactly
  when \<open>int\<close> rejects some dot-separated piece of the input, that is when some piece is not
  an integer literal with an optional sign; in particular \<open>convert_version_to_int("1.a.3")\<close>
  fails so.
\<close>

theorem literal_error_iff_piece_rejected:
  "(convert_version_to_int v = Inl ValueError_literal \<longleftrightarrow>
      (\<exists>p \<in> set (split (CHR ''.'') v). py_int p = None)) \<and>
   convert_version_to_int ''1.a.3'' = Inl ValueError_literal"
proof -
  have "py_int ''a'' = None" by (simp add: py_int_eval)
  moreover have "''a'' \<in> set (split (CHR ''.'') ''1.a.3'')" by simp
  ultimately have "convert_version_to_int ''1.a.3'' = Inl ValueError_literal"
    unfolding convert_version_to_int_literal_iff by blast
  then show ?thesis
    by (simp add: convert_version_to_int_literal_iff)
qed

theorem literal_error_iff_piece_rejected_witness:
  "(\<exists>p \<in> set (split (CHR ''.'') ''1.2.x''). py_int p = None) \<and>
   convert_version_to_int ''1.2.x'' = Inl ValueError_literal"
proof -
  have "py_int ''x'' = None" by (simp add: py_int_eval)
  moreover have "''x'' \<in> set (split (CHR ''.'') ''1.2.x'')" by simp
  ultimately have h: "\<exists>p \<in> set (split (CHR ''.'') ''1.2.x''). py_int p = None"
    by blast
  with literal_error_iff_piece_rejected [of "''1.2.x''"] show ?thesis by blast
qed

subsection \<open>Too many components\<close>

text \<open>
  Claim C5, as stated, says that the call fails with \<open>NotImplementedError\<close> if and only if
  the input has more than three components. The pieces are read before they are counted:
  \<open>"1.2.3.4.a"\<close> has five pieces, four of them numbers, and fails with the \<open>ValueError\<close> of
  \<open>int\<close>.
\<close>

theorem too_many_components_with_bad_piece:
  "map py_int (split (CHR ''.'') ''1.2.3.4.a'') = [Some 1, Some 2, Some 3, Some 4, None] \<and>
   convert_version_to_int ''1.2.3.4.a'' = Inl ValueError_literal"
proof -
  have m: "map py_int (split (CHR ''.'') ''1.2.3.4.a'') = [Some 1, Some 2, Some 3, Some 4, None]"
    by (simp add: py_int_eval)
  then have "convert_version_to_int ''1.2.3.4.a'' = Inl ValueError_literal"
    by (simp add: convert_version_to_int_def)
  with m show ?thesis by simp
qed

text \<open>
  Claim C5, amended: \<open>convert_version_to_int\<close> fails with \<open>NotImplementedError\<close> if and only
  if \<open>int\<close> accepts every dot-separated piece of the input and there are more than three
  pieces; in particular \<open>convert_version_to_int("1.2.3.4")\<close> fails so.
\<close>

theorem not_implemented_iff_too_many_parsed:
  "(convert_version_to_int v = Inl NotImplementedError \<longleftrightarrow>
      (\<forall>p \<in> set (split (CHR ''.'') v). py_int p \<noteq> None) \<and> length (split (CHR ''.'') v) > 3) \<and>
   convert_version_to_int ''1.2.3.4'' = Inl NotImplementedError"
proof -
  have "convert_version_to_int ''1.2.3.4'' = Inl NotImplementedError"
    unfolding convert_version_to_int_NotImplemented_iff by (simp add: py_int_eval)
  then show ?thesis
    by (simp add: convert_version_to_int_NotImplemented_iff)
qed

theorem not_implemented_iff_too_many_parsed_witness:
  "map py_int (split (CHR ''.'') ''0.0.0.0'') = [Some 0, Some 0, Some 0, Some 0] \<and>
   length (split (CHR ''.'') ''0.0.0.0'') > 3 \<and>
   convert_version_to_int ''0.0.0.0'' = Inl NotImplementedError"
proof -
  have m: "map py_int (split (CHR ''.'') ''0.0.0.0'') = [Some 0, Some 0, Some 0, Some 0]"
    by (simp add: py_int_eval)
  have h: "(\<forall>p \<in> set (split (CHR ''.'') ''0.0.0.0''). py_int p \<noteq> None) \<and>
           length (split (CHR ''.'') ''0.0.0.0'') > 3"
    by (simp add: py_int_eval)
  with not_implemented_iff_too_many_parsed [of "''0.0.0.0''"]
  have "convert_version_to_int ''0.0.0.0'' = Inl NotImplementedError"
    by blast
  with m h show ?thesis by blast
qed

subsection \<open>Missing components\<close>

text \<open>
  Claim C6: for every version string \<open>v\<close> with fewer than three components,
  \<open>convert_version_to_int(v)\<close> and \<open>convert_version_to_int(v + ".0")\<close> are the same, value
  or exception; in particular \<open>"1.2"\<close> gives what \<open>"1.2.0"\<close> gives and \<open>"5"\<close> what \<open>"5.0.0"\<close>
  gives.
\<close>

theorem missing_components_are_zero:
  assumes "length (split (CHR ''.'') v) < 3"
  shows "convert_version_to_int v = convert_version_to_int (v @ ''.0'') \<and>
         convert_version_to_int ''1.2'' = convert_version_to_int ''1.2.0'' \<and>
         convert_version_to_int ''5'' = convert_version_to_int ''5.0.0''"
proof -
  have a: "convert_version_to_int ''1.2'' = convert_version_to_int ''1.2.0''"
    using convert_version_to_int_append_zero [of "''1.2''"] by simp
  have "convert_version_to_int ''5'' = convert_version_to_int ''5.0''"
    using convert_version_to_int_append_zero [of "''5''"] by simp
  also have "\<dots> = convert_version_to_int ''5.0.0''"
    using convert_version_to_int_append_zero [of "''5.0''"] by simp
  finally have b: "convert_version_to_int ''5'' = convert_version_to_int ''5.0.0''" .
  from assms a b show ?thesis
    by (simp add: convert_version_to_int_append_zero)
qed

theorem missing_components_are_zero_witness:
  "length (split (CHR ''.'') ''2.10'') < 3 \<and>
   convert_version_to_int ''2.10'' = convert_version_to_int ''2.10.0'' \<and>
   convert_version_to_int ''2.10.0'' = Inr 34209792"
proof -
  have h: "length (split (CHR ''.'') ''2.10'') < 3" by simp
  have "map py_int (split (CHR ''.'') ''2.10.0'') = [Some 2, Some 10, Some 0]"
    by (simp add: py_int_eval)
  then have "convert_version_to_int ''2.10.0'' = Inr 34209792"
    by (simp add: convert_version_to_int_three)
  with missing_components_are_zero [OF h] h show ?thesis by simp
qed

subsection \<open>Sign of the result\<close>

text \<open>
  Claim C7, as stated, says that every returned value is non-negative. \<open>int\<close> accepts a
  minus sign and the range check has no lower bound:
  \<open>convert_version_to_int("-1")\<close> returns \<open>-16777216\<close>.
\<close>

theorem negative_result:
  "convert_version_to_int ''-1'' = Inr (- 16777216) \<and> \<not> (0::int) \<le> - 16777216"
proof -
  have "map py_int (split (CHR ''.'') ''-1'') = map Some [- 1]"
    by (simp add: py_int_eval)
  from convert_version_to_int_numbers [OF this]
  have "convert_version_to_int ''-1'' = pack (rev (zip [- 1, 0, 0] number_bits)) 0 0"
    by (simp add: number_bits_def numeral_3_eq_3)
  then show ?thesis by (simp add: pack_three)
qed

text \<open>
  Claim C7, amended: for every input on which \<open>convert_version_to_int\<close> returns without
  raising and none of whose pieces is read as a negative number, the returned value is a
  non-negative integer.
\<close>

theorem result_nonneg_of_nonneg_components:
  assumes "convert_version_to_int v = Inr r"
    and "\<forall>p \<in> set (split (CHR ''.'') v). \<forall>n. py_int p = Some n \<longrightarrow> 0 \<le> n"
  shows "0 \<le> r"
proof (cases "those (map py_int (split (CHR ''.'') v))")
  case None
  with assms(1) show ?thesis by (simp add: convert_version_to_int_def)
next
  case (Some nums)
  then have m: "map py_int (split (CHR ''.'') v) = map Some nums"
    by (simp add: those_eq_Some_iff)
  have nn: "\<forall>n \<in> set nums. 0 \<le> n"
  proof
    fix n assume "n \<in> set nums"
    then have "Some n \<in> set (map py_int (split (CHR ''.'') v))" using m by simp
    then obtain p where "p \<in> set (split (CHR ''.'') v)" "py_int p = Some n" by auto
    with assms(2) show "0 \<le> n" by blast
  qed
  let ?padded = "nums @ replicate (length number_bits - length nums) 0"
  have "\<forall>(num, bits) \<in> set (rev (zip ?padded number_bits)). 0 \<le> num"
    using nn by (auto dest!: set_zip_leftD)
  moreover have "pack (rev (zip ?padded number_bits)) 0 0 = Inr r"
    using assms(1) Some by (simp add: convert_version_to_int_def Let_def split: if_splits)
  ultimately show ?thesis using pack_nonneg [of _ 0 0 r] by simp
qed

theorem result_nonneg_of_nonneg_components_witness:
  "convert_version_to_int ''1.2.3'' = Inr 16908291 \<and>
   map py_int (split (CHR ''.'') ''1.2.3'') = [Some 1, Some 2, Some 3] \<and>
   (0::int) \<le> 16908291"
proof -
  have m: "map py_int (split (CHR ''.'') ''1.2.3'') = [Some 1, Some 2, Some 3]"
    by (simp add: py_int_eval)
  then have r: "convert_version_to_int ''1.2.3'' = Inr 16908291"
    by (simp add: convert_version_to_int_three)
  have h: "\<forall>p \<in> set (split (CHR ''.'') ''1.2.3''). \<forall>n. py_int p = Some n \<longrightarrow> 0 \<le> n"
    by (simp add: py_int_eval)
  from result_nonneg_of_nonneg_components [OF r h] r m show ?thesis by simp
qed


section \<open>Properties of \<open>make_password\<close>\<close>

lemma alphabet_alnum:
  "\<forall>c \<in> set (ascii_letters @ digits). is_ascii_letter c \<or> is_decimal_digit c"
  by (simp add: ascii_letters_def digits_def is_ascii_letter_def is_decimal_digit_def)

lemma choice_alphabet:
  "\<exists>c. choice r (ascii_letters @ digits) = Inr c \<and> (is_ascii_letter c \<or> is_decimal_digit c)"
proof -
  let ?a = "ascii_letters @ digits"
  have ne: "?a \<noteq> []" by (simp add: ascii_letters_def)
  then have "r mod length ?a < length ?a" by simp
  then have "?a ! (r mod length ?a) \<in> set ?a" by (rule nth_mem)
  with alphabet_alnum have "is_ascii_letter (?a ! (r mod length ?a)) \<or> is_decimal_digit (?a ! (r mod length ?a))"
    by blast
  with ne show ?thesis by (simp add: choice_def)
qed

lemma join_choices:
  "\<exists>s. join (map (\<lambda>i. choice (rnd i) (ascii_letters @ digits)) is) = Inr s \<and>
       length s = length is \<and> (\<forall>c \<in> set s. is_ascii_letter c \<or> is_decimal_digit c)"
proof (induction "is")
  case Nil
  show ?case by simp
next
  case (Cons i "is")
  from choice_alphabet [of "rnd i"] obtain c where
    c: "choice (rnd i) (ascii_letters @ digits) = Inr c" "is_ascii_letter c \<or> is_decimal_digit c"
    by blast
  from Cons obtain s where
    s: "join (map (\<lambda>i. choice (rnd i) (ascii_letters @ digits)) is) = Inr s"
       "length s = length is" "\<forall>c \<in> set s. is_ascii_letter c \<or> is_decimal_digit c"
    by blast
  from c s show ?case by simp
qed

text \<open>
  Claim C9: for every non-negative \<open>length\<close> and whatever the random source delivers,
  \<open>make_password(length)\<close> returns a string of exactly \<open>length\<close> characters, each an ASCII
  letter or a decimal digit; without an argument the length is 16.
\<close>

theorem make_password_length_alnum:
  assumes "0 \<le> n"
  shows "(\<exists>s. make_password rnd (Some n) = Inr s \<and> int (length s) = n \<and>
              (\<forall>c \<in> set s. is_ascii_letter c \<or> is_decimal_digit c)) \<and>
         make_password rnd None = make_password rnd (Some 16)"
proof -
  from join_choices [of rnd "[0..<nat n]"] obtain s where
    "join (map (\<lambda>i. choice (rnd i) (ascii_letters @ digits)) [0..<nat n]) = Inr s"
    "length s = length [0..<nat n]" "\<forall>c \<in> set s. is_ascii_letter c \<or> is_decimal_digit c"
    by blast
  with assms have "make_password rnd (Some n) = Inr s \<and> int (length s) = n \<and>
              (\<forall>c \<in> set s. is_ascii_letter c \<or> is_decimal_digit c)"
    by (simp add: make_password_def)
  then show ?thesis by (auto simp: make_password_def)
qed


theorem make_password_length_alnum_witness:
  "(0::int) \<le> 4 \<and> make_password (\<lambda>i. 7 * i + 30) (Some 4) = Inr ''ELSZ'' \<and>
   (\<exists>s. make_password (\<lambda>i. 7 * i + 30) (Some 4) = Inr s \<and> int (length s) = 4 \<and>
              (\<forall>c \<in> set s. is_ascii_letter c \<or> is_decimal_digit c))"
proof -
  have h: "(0::int) \<le> 4" by simp
  have e: "make_password (\<lambda>i. 7 * i + 30) (Some 4) = Inr ''ELSZ''"
    by code_simp
  from make_password_length_alnum [OF h, of "\<lambda>i. 7 * i + 30"] e show ?thesis by simp
qed


section \<open>Properties of \<open>settings\<close>\<close>

lemma del_items_keeps_None:
  "del_items keys ENV = (None, ENV') \<Longrightarrow> ENV key = None \<Longrightarrow> ENV' key = None"
  by (induction keys arbitrary: ENV) (auto split: option.splits)

lemma del_items_removes:
  "del_items keys ENV = (None, ENV') \<Longrightarrow> key \<in> set keys \<Longrightarrow> ENV' key = None"
proof (induction keys arbitrary: ENV)
  case Nil
  then show ?case by simp
next
  case (Cons k keys)
  from Cons.prems(1) obtain v where v: "ENV k = Some v"
    and rest: "del_items keys (ENV(k := None)) = (None, ENV')"
    by (auto split: option.splits)
  show ?case
  proof (cases "key = k")
    case True
    with rest show ?thesis
      using del_items_keeps_None [of keys "ENV(k := None)" ENV' key] by simp
  next
    case False
    with Cons.prems(2) have "key \<in> set keys" by simp
    with rest show ?thesis by (rule Cons.IH)
  qed
qed

lemma del_items_other:
  "del_items keys ENV = (None, ENV') \<Longrightarrow> key \<notin> set keys \<Longrightarrow> ENV' key = ENV key"
  by (induction keys arbitrary: ENV) (auto split: option.splits)

lemma set_items_dom: "dom (set_items kwargs ENV) = dom ENV \<union> fst ` set kwargs"
proof (induction kwargs arbitrary: ENV)
  case Nil
  show ?case by simp
next
  case (Cons kv kwargs)
  obtain key val where kv: "kv = (key, val)" by (cases kv)
  have "dom (set_items (kv # kwargs) ENV) = dom (ENV(key \<mapsto> val)) \<union> fst ` set kwargs"
    unfolding kv by (simp only: set_items.simps Cons.IH)
  also have "\<dots> = dom ENV \<union> fst ` set (kv # kwargs)"
    unfolding kv by auto
  finally show ?case .
qed

lemma set_items_other: "key \<notin> fst ` set kwargs \<Longrightarrow> set_items kwargs ENV key = ENV key"
  by (induction kwargs arbitrary: ENV) auto

lemma del_items_present:
  "distinct keys \<Longrightarrow> set keys \<subseteq> dom ENV \<Longrightarrow> \<exists>ENV'. del_items keys ENV = (None, ENV')"
proof (induction keys arbitrary: ENV)
  case Nil
  show ?case by simp
next
  case (Cons k keys)
  from Cons.prems obtain v where v: "ENV k = Some v" by auto
  have "set keys \<subseteq> dom (ENV(k := None))" using Cons.prems by auto
  moreover have "distinct keys" using Cons.prems(1) by simp
  ultimately have "\<exists>ENV'. del_items keys (ENV(k := None)) = (None, ENV')"
    by (rule Cons.IH [rotated])
  with v show ?case by (simp del: fun_upd_apply)
qed

lemma settings_plain_body:
  assumes "distinct (map fst kwargs)"
  shows "settings kwargs (\<lambda>E. (None, E)) ENV =
           (None, \<lambda>key. if key \<in> fst ` set kwargs then None else ENV key)"
proof -
  have "set (map fst kwargs) \<subseteq> dom (set_items kwargs ENV)"
    by (simp add: set_items_dom)
  with assms obtain ENV' where d: "del_items (map fst kwargs) (set_items kwargs ENV) = (None, ENV')"
    using del_items_present by blast
  have "ENV' key = (if key \<in> fst ` set kwargs then None else ENV key)" for key
  proof (cases "key \<in> fst ` set kwargs")
    case True
    then have "key \<in> set (map fst kwargs)" by simp
    with d have "ENV' key = None" by (rule del_items_removes)
    with True show ?thesis by simp
  next
    case False
    then have "key \<notin> set (map fst kwargs)" by simp
    with d have "ENV' key = set_items kwargs ENV key" by (rule del_items_other)
    with False show ?thesis by (simp add: set_items_other)
  qed
  then have "ENV' = (\<lambda>key. if key \<in> fst ` set kwargs then None else ENV key)" by blast
  with d show ?thesis by (simp add: settings_def)
qed

text \<open>
  Claim C10: when the \<open>with\<close> statement ends without an exception, no key that
  \<open>settings\<close> was given is in \<open>ENV\<close> any more, whatever \<open>ENV\<close> held before: a value that a
  key had before the \<open>with\<close> statement is not restored.
\<close>

theorem settings_removes_keys:
  assumes "settings kwargs body ENV = (None, ENV')" and "key \<in> fst ` set kwargs"
  shows "ENV' key = None"
proof -
  from assms(1) obtain ENV1 where "del_items (map fst kwargs) ENV1 = (None, ENV')"
    by (auto simp: settings_def split: prod.splits option.splits)
  moreover from assms(2) have "key \<in> set (map fst kwargs)" by simp
  ultimately show ?thesis by (rule del_items_removes)
qed

theorem settings_removes_keys_witness:
  "settings [(''sudo_user'', ''postgres'')] (\<lambda>E. (None, E)) [''sudo_user'' \<mapsto> ''root'', ''debug'' \<mapsto> ''1'']
     = (None, [''debug'' \<mapsto> ''1'']) \<and>
   ''sudo_user'' \<in> fst ` set [(''sudo_user'', ''postgres'')] \<and>
   [''sudo_user'' \<mapsto> ''root'', ''debug'' \<mapsto> ''1''] ''sudo_user'' = Some ''root'' \<and>
   [''debug'' \<mapsto> ''1''] ''sudo_user'' = (None :: string option)"
proof -
  have r: "settings [(''sudo_user'', ''postgres'')] (\<lambda>E. (None, E)) [''sudo_user'' \<mapsto> ''root'', ''debug'' \<mapsto> ''1'']
     = (None, [''debug'' \<mapsto> ''1''])"
    by (auto simp: settings_def fun_eq_iff)
  have k: "''sudo_user'' \<in> fst ` set [(''sudo_user'', ''postgres'')]" by simp
  from settings_removes_keys [OF r k] r k show ?thesis by simp
qed

end
